theory Spec2Isabelle
  imports Complex_Main "HOL-Library.AList"
begin

section \<open>JSON values as the TypeScript code sees them\<close>

text \<open>
  The schema extractor of the playground (\<^verbatim>\<open>schemaExtractors.ts\<close>) works on fragments of
  an OpenAPI document, that is on parsed JSON. A value is \<^verbatim>\<open>undefined\<close> (what reading an
  absent property gives), \<^verbatim>\<open>null\<close>, a boolean, a number, a string, an array or an object.
  A number is the real value of the double that JSON parsing yields (\<^verbatim>\<open>-0\<close> and
  \<^verbatim>\<open>0\<close> are the same number here, as they are for \<^verbatim>\<open>===\<close>, for truthiness and for
  \<^verbatim>\<open>String\<close>). An object is the list of its properties; a property read sees the first
  binding of a key, and an object that comes from JSON has each key once. The order of the
  list is the order in which the properties were written; JavaScript enumerates
  integer-like keys before the others, which the list does not: the general theorems
  below speak of property reads only, never of the order of keys, and the schemas
  evaluated below have no integer-like key.
\<close>

datatype jsval =
    JUndefined
  | JNull
  | JBool bool
  | JNum real
  | JStr string
  | JArr "jsval list"
  | JObj "(string \<times> jsval) list"

type_synonym jsobject = "(string \<times> jsval) list"

text \<open>
  The two errors the extractor throws itself are \<^verbatim>\<open>Error("No valid non-null schema found
  in anyOf")\<close>, the empty-union error, and \<^verbatim>\<open>Error("Invalid schema type")\<close>, the
  invalid-shape error. \<open>TypeError\<close> is what the JavaScript runtime throws when a property
  of \<^verbatim>\<open>undefined\<close> or \<^verbatim>\<open>null\<close> is read, when something that is not a function is
  called, or when an object cannot be converted to a string.
\<close>

datatype error = EmptyUnionError | InvalidSchemaShape | TypeError

text \<open>The interface \<^verbatim>\<open>ExtractedSchema\<close>; its two optional fields are never set here.\<close>

record ExtractedSchema =
  schema :: jsobject
  parentTitle :: "string option"
  parentDescription :: "string option"
  isNullable :: bool

text \<open>\<^verbatim>\<open>k in obj\<close> and \<^verbatim>\<open>obj.k\<close>, for the keys the code asks about (none of them is
  inherited from \<^verbatim>\<open>Object.prototype\<close>, so only own properties count), and one property
  of an object literal, \<^verbatim>\<open>{..., k: v}\<close>: an existing key keeps its place and takes the
  new value, a new key goes last.\<close>

definition has_key :: "string \<Rightarrow> jsobject \<Rightarrow> bool" where
  "has_key k obj = (map_of obj k \<noteq> None)"

definition get_prop :: "jsobject \<Rightarrow> string \<Rightarrow> jsval" where
  "get_prop obj k = (case map_of obj k of None \<Rightarrow> JUndefined | Some v \<Rightarrow> v)"

definition set_prop :: "string \<Rightarrow> jsval \<Rightarrow> jsobject \<Rightarrow> jsobject" where
  "set_prop k v obj = AList.update k v obj"

text \<open>The own properties of an object, each key once; the spread \<^verbatim>\<open>{...target, ...src}\<close>
  copies them in order onto what the literal holds so far; the rest pattern
  \<^verbatim>\<open>const {k, ...rest} = obj\<close> leaves the key out.\<close>

definition own_entries :: "jsobject \<Rightarrow> (string \<times> jsval) list" where
  "own_entries obj = AList.clearjunk obj"

definition spread :: "jsobject \<Rightarrow> jsobject \<Rightarrow> jsobject" where
  "spread target src = fold (\<lambda>(k, v). set_prop k v) (own_entries src) target"

definition omit :: "string \<Rightarrow> jsobject \<Rightarrow> jsobject" where
  "omit k obj = AList.delete k obj"

text \<open>Truthiness, \<^verbatim>\<open>a || b\<close>, \<^verbatim>\<open>a ?? b\<close> and the idiom \<^verbatim>\<open>k in obj && obj.k\<close>.\<close>

fun truthy :: "jsval \<Rightarrow> bool" where
  "truthy JUndefined = False"
| "truthy JNull = False"
| "truthy (JBool b) = b"
| "truthy (JNum n) = (n \<noteq> 0)"
| "truthy (JStr s) = (s \<noteq> [])"
| "truthy (JArr xs) = True"
| "truthy (JObj fs) = True"

definition js_or :: "jsval \<Rightarrow> jsval \<Rightarrow> jsval" where
  "js_or a b = (if truthy a then a else b)"

definition js_nullish :: "jsval \<Rightarrow> jsval \<Rightarrow> jsval" where
  "js_nullish a b = (if a = JNull \<or> a = JUndefined then b else a)"

definition in_and_get :: "string \<Rightarrow> jsobject \<Rightarrow> jsval" where
  "in_and_get k obj = (if has_key k obj then get_prop obj k else JBool False)"

text \<open>A throw ends the computation: sequencing, and \<^verbatim>\<open>xs.map(f)\<close> for an \<open>f\<close> that may throw.\<close>

definition bind_err :: "error + 'a \<Rightarrow> ('a \<Rightarrow> error + 'b) \<Rightarrow> error + 'b" where
  "bind_err m f = (case m of Inl e \<Rightarrow> Inl e | Inr x \<Rightarrow> f x)"

fun map_err :: "('a \<Rightarrow> error + 'b) \<Rightarrow> 'a list \<Rightarrow> error + 'b list" where
  "map_err f [] = Inr []"
| "map_err f (x # xs) =
     (case f x of Inl e \<Rightarrow> Inl e
      | Inr y \<Rightarrow> (case map_err f xs of Inl e \<Rightarrow> Inl e | Inr ys \<Rightarrow> Inr (y # ys)))"

text \<open>
  \<^verbatim>\<open>String(v)\<close>. A safe integer, one of absolute value at most \<open>2^53 - 1\<close>, prints as
  its decimal numeral. Any other number prints as the shortest digits that read back as
  the same double, with an exponent from \<^verbatim>\<open>1e21\<close> on; these digits are not modelled, and
  \<open>number_string\<close> leaves the string of such a number unspecified. An array prints its
  elements separated by commas, \<^verbatim>\<open>null\<close> and \<^verbatim>\<open>undefined\<close> elements as the empty string.
  A plain object prints as \<^verbatim>\<open>[object Object]\<close>; one with a property \<^verbatim>\<open>toString\<close> of its
  own (which in JSON is never a function) cannot be converted, and \<^verbatim>\<open>String\<close> throws.
\<close>

definition digit_char :: "nat \<Rightarrow> char" where
  "digit_char d = ''0123456789'' ! d"

function string_of_nat :: "nat \<Rightarrow> string" where
  "string_of_nat n =
     (if n < 10 then [digit_char n] else string_of_nat (n div 10) @ [digit_char (n mod 10)])"
  by pat_completeness auto
termination
  by (relation "measure (\<lambda>n. n)") auto

definition string_of_int :: "int \<Rightarrow> string" where
  "string_of_int i = (if i < 0 then CHR ''-'' # string_of_nat (nat (- i)) else string_of_nat (nat i))"

definition safe_integer :: "real \<Rightarrow> bool" where
  "safe_integer x = (of_int \<lfloor>x\<rfloor> = x \<and> \<bar>x\<bar> \<le> 9007199254740991)"

definition number_string :: "real \<Rightarrow> string" where
  "number_string x =
     (if safe_integer x then string_of_int \<lfloor>x\<rfloor> else (undefined :: real \<Rightarrow> string) x)"

fun js_String :: "jsval \<Rightarrow> error + string"
  and js_join :: "jsval list \<Rightarrow> error + string"
  and js_element :: "jsval \<Rightarrow> error + string" where
  "js_String JUndefined = Inr ''undefined''"
| "js_String JNull = Inr ''null''"
| "js_String (JBool b) = Inr (if b then ''true'' else ''false'')"
| "js_String (JNum n) = Inr (number_string n)"
| "js_String (JStr s) = Inr s"
| "js_String (JArr xs) = js_join xs"
| "js_String (JObj fs) =
     (if has_key ''toString'' fs then Inl TypeError else Inr ''[object Object]'')"
| "js_join [] = Inr []"
| "js_join [x] = js_element x"
| "js_join (x # y # ys) =
     (case js_element x of Inl e \<Rightarrow> Inl e
      | Inr a \<Rightarrow> (case js_join (y # ys) of Inl e \<Rightarrow> Inl e | Inr b \<Rightarrow> Inr (a @ CHR '','' # b)))"
| "js_element x = (if x = JNull \<or> x = JUndefined then Inr [] else js_String x)"

text \<open>\<^verbatim>\<open>c.k\<close> for a value \<open>c\<close> that is neither \<^verbatim>\<open>undefined\<close> nor \<^verbatim>\<open>null\<close>; only
  \<^verbatim>\<open>label\<close> and \<^verbatim>\<open>value\<close> are read this way, which no string, number, boolean or
  array has.\<close>

definition js_member :: "jsval \<Rightarrow> string \<Rightarrow> jsval" where
  "js_member c k = (case c of JObj fs \<Rightarrow> get_prop fs k | _ \<Rightarrow> JUndefined)"

text \<open>\<^verbatim>\<open>Object.entries(v)\<close> and \<^verbatim>\<open>Object.fromEntries(es)\<close>, where a later entry
  overwrites an earlier one of the same key.\<close>

definition object_entries :: "jsval \<Rightarrow> (string \<times> jsval) list" where
  "object_entries v =
     (case v of
        JObj fs \<Rightarrow> own_entries fs
      | JArr xs \<Rightarrow> map (\<lambda>(i, x). (string_of_nat i, x)) (enumerate 0 xs)
      | JStr s \<Rightarrow> map (\<lambda>(i, c). (string_of_nat i, JStr [c])) (enumerate 0 s)
      | _ \<Rightarrow> [])"

definition object_fromEntries :: "(string \<times> jsval) list \<Rightarrow> jsval" where
  "object_fromEntries es = JObj (fold (\<lambda>(k, v). set_prop k v) es [])"

text \<open>\<^verbatim>\<open>xs.find(p)\<close> and \<^verbatim>\<open>xs[0]\<close>, both \<^verbatim>\<open>undefined\<close> when there is nothing to return.\<close>

definition array_find :: "(jsval \<Rightarrow> bool) \<Rightarrow> jsval list \<Rightarrow> jsval" where
  "array_find p xs = (case find p xs of None \<Rightarrow> JUndefined | Some x \<Rightarrow> x)"

definition array_first :: "jsval list \<Rightarrow> jsval" where
  "array_first xs = (case xs of [] \<Rightarrow> JUndefined | x # _ \<Rightarrow> x)"

section \<open>The classifier predicates\<close>

text \<open>
  Modelled from the spec: \<^verbatim>\<open>hasType\<close>, which \<^verbatim>\<open>schemaExtractors.ts\<close> imports from
  \<^verbatim>\<open>../utilities/schema\<close>, a module whose source is not among the files verified here.
  The spec: it ``returns true iff a \<^verbatim>\<open>type\<close> field is present at all'', is total and
  never throws. A value that is not an object has no fields.
\<close>

definition hasType :: "jsval \<Rightarrow> bool" where
  "hasType s = (case s of JObj fs \<Rightarrow> has_key ''type'' fs | _ \<Rightarrow> False)"

text \<open>\<^verbatim>\<open>schema.type\<close>, read after \<^verbatim>\<open>hasType(schema)\<close> has held.\<close>

definition typeOf :: "jsval \<Rightarrow> jsval" where
  "typeOf s = (case s of JObj fs \<Rightarrow> get_prop fs ''type'' | _ \<Rightarrow> JUndefined)"

text \<open>
  Modelled from the spec: \<^verbatim>\<open>isSchema.primitive\<close>, of the same module. The spec: true iff
  the node's \<^verbatim>\<open>type\<close> field matches the kind; the primitive kinds are string, number,
  boolean and integer.
\<close>

definition isSchema_primitive :: "jsval \<Rightarrow> bool" where
  "isSchema_primitive s =
     (hasType s \<and> typeOf s \<in> set [JStr ''string'', JStr ''number'', JStr ''boolean'', JStr ''integer''])"

text \<open>Modelled from the spec: \<^verbatim>\<open>isSchema.array\<close>, of the same module; true iff the node's
  \<^verbatim>\<open>type\<close> field is \<^verbatim>\<open>"array"\<close>.\<close>

definition isSchema_array :: "jsval \<Rightarrow> bool" where
  "isSchema_array s = (hasType s \<and> typeOf s = JStr ''array'')"

text \<open>Modelled from the spec: \<^verbatim>\<open>isSchema.object\<close>, of the same module; true iff the node's
  \<^verbatim>\<open>type\<close> field is \<^verbatim>\<open>"object"\<close>.\<close>

definition isSchema_object :: "jsval \<Rightarrow> bool" where
  "isSchema_object s = (hasType s \<and> typeOf s = JStr ''object'')"

section \<open>schemaExtractors.ts\<close>

text \<open>The two branches of \<^verbatim>\<open>processedChoices\<close> in \<^verbatim>\<open>createPrimitiveSchema\<close>: one
  element of a list of choices becomes \<^verbatim>\<open>{label: String(c.label), value: String(c.value)}\<close>,
  one entry \<^verbatim>\<open>[k, v]\<close> of a mapping of groups becomes \<^verbatim>\<open>[k, v.map(String)]\<close>; only an array
  has a \<^verbatim>\<open>map\<close> to call.\<close>

definition processChoice :: "jsval \<Rightarrow> error + jsval" where
  "processChoice c =
     (if c = JUndefined \<or> c = JNull then Inl TypeError
      else bind_err (js_String (js_member c ''label'')) (\<lambda>l.
           bind_err (js_String (js_member c ''value'')) (\<lambda>v.
           Inr (JObj [(''label'', JStr l), (''value'', JStr v)]))))"

definition processGroup :: "string \<times> jsval \<Rightarrow> error + string \<times> jsval" where
  "processGroup kv =
     (case snd kv of
        JArr xs \<Rightarrow> bind_err (map_err js_String xs) (\<lambda>ss. Inr (fst kv, JArr (map JStr ss)))
      | _ \<Rightarrow> Inl TypeError)"

text \<open>\<^verbatim>\<open>choices && (Array.isArray(choices) ? ... : Object.fromEntries(...))\<close>.\<close>

definition processChoices :: "jsval \<Rightarrow> error + jsval" where
  "processChoices choices =
     (if \<not> truthy choices then Inr choices
      else (case choices of
              JArr cs \<Rightarrow> bind_err (map_err processChoice cs) (\<lambda>ps. Inr (JArr ps))
            | _ \<Rightarrow> bind_err (map_err processGroup (object_entries choices))
                     (\<lambda>es. Inr (object_fromEntries es))))"

text \<open>\<^verbatim>\<open>createPrimitiveSchema\<close>: the object literal is built in the order of the source, the
  two spreads first, then \<^verbatim>\<open>type\<close>, \<^verbatim>\<open>title\<close>, \<^verbatim>\<open>description\<close>, \<^verbatim>\<open>default\<close>,
  \<^verbatim>\<open>enum\<close> and \<^verbatim>\<open>choices\<close>. The cast \<^verbatim>\<open>as string[] | undefined\<close> is erased at run time.\<close>

definition createPrimitiveSchema :: "jsobject \<Rightarrow> jsobject \<Rightarrow> jsval \<Rightarrow> error + jsobject" where
  "createPrimitiveSchema parentMetadata selectedSchema schemaType =
     (let choices =
            js_or (js_or (in_and_get ''choices'' selectedSchema)
                         (in_and_get ''choices'' parentMetadata))
                  JUndefined
      in bind_err (processChoices choices) (\<lambda>processedChoices.
           Inr (set_prop ''choices'' processedChoices
               (set_prop ''enum'' (get_prop selectedSchema ''enum'')
               (set_prop ''default''
                  (js_nullish (get_prop selectedSchema ''default'') (get_prop parentMetadata ''default''))
               (set_prop ''description''
                  (js_or (get_prop selectedSchema ''description'') (get_prop parentMetadata ''description''))
               (set_prop ''title''
                  (js_or (get_prop selectedSchema ''title'') (get_prop parentMetadata ''title''))
               (set_prop ''type'' schemaType
               (spread (spread [] parentMetadata) selectedSchema)))))))))"

text \<open>\<^verbatim>\<open>combineSchemas\<close>: the \<^verbatim>\<open>switch\<close> on \<^verbatim>\<open>selectedSchema.type\<close> compares with
  \<^verbatim>\<open>===\<close>; the last line is the throw of \<^verbatim>\<open>Error("Invalid schema type")\<close>.\<close>

definition combineSchemas :: "jsobject \<Rightarrow> jsobject \<Rightarrow> error + jsobject" where
  "combineSchemas parentMetadata selectedSchema =
     (if has_key ''type'' selectedSchema then
        (let schemaType = get_prop selectedSchema ''type'' in
         if schemaType = JStr ''array'' then
           Inr (set_prop ''default''
                  (js_nullish (get_prop selectedSchema ''default'') (get_prop parentMetadata ''default''))
               (set_prop ''description''
                  (js_or (get_prop selectedSchema ''description'') (get_prop parentMetadata ''description''))
               (set_prop ''title''
                  (js_or (get_prop selectedSchema ''title'') (get_prop parentMetadata ''title''))
               (set_prop ''type'' (JStr ''array'')
               (spread (spread [] parentMetadata) selectedSchema)))))
         else if schemaType = JStr ''object'' then
           Inr (set_prop ''default''
                  (js_nullish (get_prop selectedSchema ''default'') (get_prop parentMetadata ''default''))
               (set_prop ''description''
                  (js_or (get_prop selectedSchema ''description'') (get_prop parentMetadata ''description''))
               (set_prop ''title''
                  (js_or (get_prop selectedSchema ''title'') (get_prop parentMetadata ''title''))
               (set_prop ''type'' (JStr ''object'')
               (spread (spread [] parentMetadata) selectedSchema)))))
         else createPrimitiveSchema parentMetadata selectedSchema schemaType)
      else if has_key ''anyOf'' selectedSchema then
        Inr (spread (spread [] parentMetadata) selectedSchema)
      else Inl InvalidSchemaShape)"

text \<open>\<^verbatim>\<open>extractFromAnyOf\<close>, with its two local constants \<^verbatim>\<open>nonNullSchemas\<close> and
  \<^verbatim>\<open>selectedSchema\<close> as functions of their own. Calling \<^verbatim>\<open>filter\<close> on an \<^verbatim>\<open>anyOf\<close> that
  is not an array is a \<^verbatim>\<open>TypeError\<close>, and so is reading \<^verbatim>\<open>enum\<close> of \<^verbatim>\<open>undefined\<close>.\<close>

definition nonNullSchemas :: "jsval list \<Rightarrow> jsval list" where
  "nonNullSchemas alts = filter (\<lambda>s. hasType s \<and> typeOf s \<noteq> JStr ''null'') alts"

definition selectSchema :: "jsval list \<Rightarrow> jsval" where
  "selectSchema nonNull =
     js_or (js_or (js_or (array_find isSchema_primitive nonNull)
                         (array_find isSchema_array nonNull))
                  (array_find isSchema_object nonNull))
           (array_first nonNull)"

definition extractFromAnyOf :: "jsobject \<Rightarrow> error + ExtractedSchema" where
  "extractFromAnyOf anyOfSchema =
     (case get_prop anyOfSchema ''anyOf'' of
        JArr alts \<Rightarrow>
          (let nonNull = nonNullSchemas alts;
               nullable = list_ex (\<lambda>s. hasType s \<and> typeOf s = JStr ''null'') alts
           in if length nonNull = 0 then Inl EmptyUnionError
              else (case selectSchema nonNull of
                      JObj selectedSchema \<Rightarrow>
                        (let typedSelectedSchema =
                               set_prop ''enum'' (get_prop selectedSchema ''enum'')
                                 (spread [] selectedSchema);
                             parentMetadata = omit ''anyOf'' anyOfSchema
                         in bind_err (combineSchemas parentMetadata typedSelectedSchema)
                              (\<lambda>combinedSchema.
                                 Inr \<lparr>schema = combinedSchema, parentTitle = None,
                                      parentDescription = None, isNullable = nullable\<rparr>))
                    | _ \<Rightarrow> Inl TypeError))
      | _ \<Rightarrow> Inl TypeError)"

text \<open>\<^verbatim>\<open>extractFromObject\<close>, \<^verbatim>\<open>isAnyOfSchema\<close> and the entry point \<^verbatim>\<open>extractSchema\<close>.\<close>

definition extractFromObject :: "jsobject \<Rightarrow> ExtractedSchema" where
  "extractFromObject objectSchema =
     \<lparr>schema = objectSchema, parentTitle = None, parentDescription = None, isNullable = False\<rparr>"

definition isAnyOfSchema :: "jsobject \<Rightarrow> bool" where
  "isAnyOfSchema s = has_key ''anyOf'' s"

definition extractSchema :: "jsobject \<Rightarrow> error + ExtractedSchema" where
  "extractSchema s =
     (if isAnyOfSchema s then extractFromAnyOf s
      else Inr \<lparr>schema = s, parentTitle = None, parentDescription = None, isNullable = False\<rparr>)"

section \<open>The spec's wording of selection and of normalised choices\<close>

text \<open>
  These predicates follow the words of the specification, not the code; the code's
  \<open>selectSchema\<close> and \<open>processChoices\<close> are compared with them below.
\<close>

definition first_satisfying :: "(jsval \<Rightarrow> bool) \<Rightarrow> jsval list \<Rightarrow> jsval \<Rightarrow> bool" where
  "first_satisfying P xs x =
     (\<exists>i. i < length xs \<and> xs ! i = x \<and> P x \<and> (\<forall>j. j < i \<longrightarrow> \<not> P (xs ! j)))"

definition precedence_choice :: "jsval list \<Rightarrow> jsval \<Rightarrow> bool" where
  "precedence_choice xs x =
     (if \<exists>y\<in>set xs. isSchema_primitive y then first_satisfying isSchema_primitive xs x
      else if \<exists>y\<in>set xs. isSchema_array y then first_satisfying isSchema_array xs x
      else if \<exists>y\<in>set xs. isSchema_object y then first_satisfying isSchema_object xs x
      else xs \<noteq> [] \<and> x = xs ! 0)"

definition coerced_pair :: "jsval \<Rightarrow> jsval \<Rightarrow> bool" where
  "coerced_pair c p =
     (\<exists>l v. p = JObj [(''label'', JStr l), (''value'', JStr v)]
        \<and> js_String (js_member c ''label'') = Inr l
        \<and> js_String (js_member c ''value'') = Inr v)"

definition coerced_group :: "jsval \<Rightarrow> jsval \<Rightarrow> bool" where
  "coerced_group x y = (\<exists>xs ss. x = JArr xs \<and> map_err js_String xs = Inr ss \<and> y = JArr (map JStr ss))"

definition normalized_choices :: "jsval \<Rightarrow> jsval \<Rightarrow> bool" where
  "normalized_choices src out =
     (case src of
        JArr cs \<Rightarrow> (\<exists>ps. out = JArr ps \<and> list_all2 coerced_pair cs ps)
      | JObj gs \<Rightarrow>
          (\<exists>gs'. out = JObj gs' \<and> (\<forall>k. rel_option coerced_group (map_of gs k) (map_of gs' k)))
      | JUndefined \<Rightarrow> out = JUndefined
      | JNum x \<Rightarrow> out = JObj []
      | JBool b \<Rightarrow> out = JObj []
      | _ \<Rightarrow> False)"

text \<open>
  The values \<^verbatim>\<open>String\<close> converts without throwing, and the choices that the
  normalisation converts without throwing: a list whose entries are neither \<^verbatim>\<open>null\<close>
  nor \<^verbatim>\<open>undefined\<close> and have a convertible label and value, or a mapping whose groups
  are arrays of convertible values. Absent choices need no conversion. A number or a
  boolean, which the data model does not have as choices, has no entries.
\<close>

fun printable :: "jsval \<Rightarrow> bool" where
  "printable (JArr xs) = (\<forall>x\<in>set xs. printable x)"
| "printable (JObj fs) = (\<not> has_key ''toString'' fs)"
| "printable v = True"

definition convertible_choices :: "jsval \<Rightarrow> bool" where
  "convertible_choices src =
     (case src of
        JArr cs \<Rightarrow>
          (\<forall>c\<in>set cs. c \<noteq> JUndefined \<and> c \<noteq> JNull
             \<and> printable (js_member c ''label'') \<and> printable (js_member c ''value''))
      | JObj gs \<Rightarrow>
          (\<forall>k x. map_of gs k = Some x \<longrightarrow> (\<exists>xs. x = JArr xs \<and> (\<forall>v\<in>set xs. printable v)))
      | JUndefined \<Rightarrow> True
      | JNum x \<Rightarrow> True
      | JBool b \<Rightarrow> True
      | _ \<Rightarrow> False)"

section \<open>Facts about objects\<close>

lemma map_of_set_prop: "map_of (set_prop k v obj) = (map_of obj)(k \<mapsto> v)"
  by (simp add: set_prop_def update_conv')

lemma get_prop_set_prop: "get_prop (set_prop k v obj) k' = (if k' = k then v else get_prop obj k')"
  by (simp add: get_prop_def map_of_set_prop)

lemma has_key_set_prop: "has_key k' (set_prop k v obj) = (k' = k \<or> has_key k' obj)"
  by (simp add: has_key_def map_of_set_prop)

lemma map_of_fold_set_prop:
  "distinct (map fst es) \<Longrightarrow>
   map_of (fold (\<lambda>(k, v). set_prop k v) es t) = map_of t ++ map_of es"
proof (induction es arbitrary: t)
  case Nil
  then show ?case by simp
next
  case (Cons e es)
  obtain k v where e: "e = (k, v)" by (cases e)
  from Cons.prems have nk: "k \<notin> fst ` set es" and d: "distinct (map fst es)"
    by (auto simp: e)
  have none: "map_of es k = None" using nk by (simp add: map_of_eq_None_iff)
  have "map_of (fold (\<lambda>(k, v). set_prop k v) (e # es) t)
        = map_of (fold (\<lambda>(k, v). set_prop k v) es (set_prop k v t))"
    by (simp add: e)
  also have "\<dots> = map_of (set_prop k v t) ++ map_of es"
    by (rule Cons.IH [OF d])
  also have "\<dots> = map_of t ++ map_of (e # es)"
  proof (rule ext)
    fix x
    show "(map_of (set_prop k v t) ++ map_of es) x = (map_of t ++ map_of (e # es)) x"
      using none by (cases "x = k") (simp_all add: map_add_def e map_of_set_prop split: option.splits)
  qed
  finally show ?case .
qed

lemma map_of_spread: "map_of (spread t s) = map_of t ++ map_of s"
  by (simp add: spread_def own_entries_def map_of_fold_set_prop distinct_clearjunk map_of_clearjunk)

lemma has_key_spread: "has_key k (spread t s) = (has_key k t \<or> has_key k s)"
  by (auto simp: has_key_def map_of_spread map_add_def split: option.splits)

lemma get_prop_spread:
  "get_prop (spread t s) k = (if has_key k s then get_prop s k else get_prop t k)"
  by (auto simp: has_key_def get_prop_def map_of_spread map_add_def split: option.splits)

lemma has_key_omit: "has_key k (omit k' obj) = (k \<noteq> k' \<and> has_key k obj)"
  by (simp add: has_key_def omit_def delete_conv')

lemma get_prop_omit: "get_prop (omit k' obj) k = (if k = k' then JUndefined else get_prop obj k)"
  by (simp add: get_prop_def omit_def delete_conv')

lemma has_key_Nil: "has_key k [] = False" by (simp add: has_key_def)

lemma get_prop_Nil: "get_prop [] k = JUndefined" by (simp add: get_prop_def)

lemma get_prop_absent: "\<not> has_key k obj \<Longrightarrow> get_prop obj k = JUndefined"
  by (simp add: has_key_def get_prop_def)

lemma get_prop_present: "get_prop obj k \<noteq> JUndefined \<Longrightarrow> has_key k obj"
  by (auto simp: get_prop_def has_key_def split: option.splits)

lemma get_prop_spread_Nil: "get_prop (spread [] s) k = get_prop s k"
  by (simp add: get_prop_spread get_prop_Nil get_prop_absent)

lemmas obj_simps = get_prop_set_prop has_key_set_prop get_prop_spread_Nil get_prop_spread
  has_key_spread has_key_Nil get_prop_Nil get_prop_absent

lemma get_prop_typed: "get_prop (set_prop ''enum'' (get_prop sel ''enum'') (spread [] sel)) k = get_prop sel k"
  by (simp add: get_prop_set_prop get_prop_spread get_prop_Nil) (simp add: get_prop_def has_key_def split: option.splits)

lemma has_key_typed:
  "has_key k (set_prop ''enum'' (get_prop sel ''enum'') (spread [] sel)) = (k = ''enum'' \<or> has_key k sel)"
  by (simp add: has_key_set_prop has_key_spread has_key_Nil)

section \<open>Facts about selection\<close>

lemma nonNull_hasType: "s \<in> set (nonNullSchemas alts) \<Longrightarrow> hasType s \<and> typeOf s \<noteq> JStr ''null'' \<and> s \<in> set alts"
  by (simp add: nonNullSchemas_def)

lemma hasType_obj: "hasType s \<Longrightarrow> \<exists>fs. s = JObj fs \<and> has_key ''type'' fs"
  by (cases s) (simp_all add: hasType_def)

lemma array_find_cases:
  "(array_find p xs = JUndefined \<and> (\<forall>x\<in>set xs. \<not> p x)) \<or> (array_find p xs \<in> set xs \<and> p (array_find p xs))"
  by (auto simp: array_find_def find_None_iff split: option.splits dest: find_Some_iff [THEN iffD1])

lemma selectSchema_mem:
  assumes "xs \<noteq> []" "\<forall>x\<in>set xs. truthy x"
  shows "selectSchema xs \<in> set xs"
proof -
  have f: "array_first xs \<in> set xs" using assms(1) by (cases xs) (simp_all add: array_first_def)
  show ?thesis
    using array_find_cases [of isSchema_primitive xs] array_find_cases [of isSchema_array xs]
      array_find_cases [of isSchema_object xs] f assms(2)
    by (auto simp: selectSchema_def js_or_def)
qed

lemma nonNull_truthy: "\<forall>x\<in>set (nonNullSchemas alts). truthy x"
proof
  fix x assume "x \<in> set (nonNullSchemas alts)"
  then have "hasType x" by (rule nonNull_hasType [THEN conjunct1])
  then obtain fs where "x = JObj fs" using hasType_obj by blast
  then show "truthy x" by simp
qed

lemma selected_object:
  assumes "nonNullSchemas alts \<noteq> []"
  shows "\<exists>sel. selectSchema (nonNullSchemas alts) = JObj sel \<and> has_key ''type'' sel
           \<and> JObj sel \<in> set (nonNullSchemas alts)"
proof -
  have "selectSchema (nonNullSchemas alts) \<in> set (nonNullSchemas alts)"
    using assms nonNull_truthy by (rule selectSchema_mem)
  moreover from this have "hasType (selectSchema (nonNullSchemas alts))"
    by (rule nonNull_hasType [THEN conjunct1])
  then obtain sel where "selectSchema (nonNullSchemas alts) = JObj sel" "has_key ''type'' sel"
    using hasType_obj by blast
  ultimately show ?thesis by simp
qed

lemma array_find_found:
  assumes "\<exists>y\<in>set xs. P y"
  shows "first_satisfying P xs (array_find P xs)" and "array_find P xs \<in> set xs"
proof -
  from assms obtain x where x: "find P xs = Some x"
    by (cases "find P xs") (auto simp: find_None_iff)
  then obtain i where i: "i < length xs" "P (xs ! i)" "x = xs ! i" "\<forall>j<i. \<not> P (xs ! j)"
    unfolding find_Some_iff by blast
  have af: "array_find P xs = x" using x by (simp add: array_find_def)
  show "first_satisfying P xs (array_find P xs)"
    unfolding first_satisfying_def af using i by blast
  show "array_find P xs \<in> set xs" unfolding af using i by simp
qed

lemma array_find_missing: "\<not> (\<exists>y\<in>set xs. P y) \<Longrightarrow> array_find P xs = JUndefined"
  by (cases "find P xs") (auto simp: array_find_def find_Some_iff)

lemma array_first_nth: "xs \<noteq> [] \<Longrightarrow> array_first xs = xs ! 0"
  by (cases xs) (simp_all add: array_first_def)

lemma selectSchema_precedence:
  assumes ne: "xs \<noteq> []" and tr: "\<forall>x\<in>set xs. truthy x"
  shows "precedence_choice xs (selectSchema xs)"
proof (cases "\<exists>y\<in>set xs. isSchema_primitive y")
  case True
  have "truthy (array_find isSchema_primitive xs)"
    using array_find_found(2) [OF True] tr by blast
  then have "selectSchema xs = array_find isSchema_primitive xs"
    by (simp add: selectSchema_def js_or_def)
  then show ?thesis using True array_find_found(1) [OF True] by (simp add: precedence_choice_def)
next
  case np: False
  have p: "array_find isSchema_primitive xs = JUndefined" using np by (rule array_find_missing)
  show ?thesis
  proof (cases "\<exists>y\<in>set xs. isSchema_array y")
    case True
    have "truthy (array_find isSchema_array xs)"
      using array_find_found(2) [OF True] tr by blast
    then have "selectSchema xs = array_find isSchema_array xs"
      by (simp add: selectSchema_def js_or_def p)
    then show ?thesis using np True array_find_found(1) [OF True]
      by (simp add: precedence_choice_def)
  next
    case na: False
    have a: "array_find isSchema_array xs = JUndefined" using na by (rule array_find_missing)
    show ?thesis
    proof (cases "\<exists>y\<in>set xs. isSchema_object y")
      case True
      have "truthy (array_find isSchema_object xs)"
        using array_find_found(2) [OF True] tr by blast
      then have "selectSchema xs = array_find isSchema_object xs"
        by (simp add: selectSchema_def js_or_def p a)
      then show ?thesis using np na True array_find_found(1) [OF True]
        by (simp add: precedence_choice_def)
    next
      case no: False
      have o: "array_find isSchema_object xs = JUndefined" using no by (rule array_find_missing)
      have "selectSchema xs = xs ! 0"
        using ne by (simp add: selectSchema_def js_or_def p a o array_first_nth)
      then show ?thesis using np na no ne by (simp add: precedence_choice_def)
    qed
  qed
qed

lemma selectSchema_Nil: "selectSchema [] = JUndefined"
  by (simp add: selectSchema_def array_find_def array_first_def js_or_def)

section \<open>Facts about the merge\<close>

lemma createPrimitiveSchema_Inr:
  assumes "createPrimitiveSchema p t ty = Inr c"
  shows "\<exists>pc base. processChoices (js_or (js_or (in_and_get ''choices'' t) (in_and_get ''choices'' p)) JUndefined) = Inr pc
     \<and> c = set_prop ''choices'' pc base
     \<and> get_prop base ''title'' = js_or (get_prop t ''title'') (get_prop p ''title'')
     \<and> get_prop base ''description'' = js_or (get_prop t ''description'') (get_prop p ''description'')
     \<and> get_prop base ''default'' = js_nullish (get_prop t ''default'') (get_prop p ''default'')
     \<and> get_prop base ''type'' = ty
     \<and> get_prop base ''enum'' = get_prop t ''enum''
     \<and> has_key ''anyOf'' base = (has_key ''anyOf'' p \<or> has_key ''anyOf'' t)"
proof -
  let ?ch = "js_or (js_or (in_and_get ''choices'' t) (in_and_get ''choices'' p)) JUndefined"
  obtain pc where pc: "processChoices ?ch = Inr pc"
    using assms by (cases "processChoices ?ch") (simp_all add: createPrimitiveSchema_def bind_err_def)
  let ?base = "set_prop ''enum'' (get_prop t ''enum'')
               (set_prop ''default'' (js_nullish (get_prop t ''default'') (get_prop p ''default''))
               (set_prop ''description'' (js_or (get_prop t ''description'') (get_prop p ''description''))
               (set_prop ''title'' (js_or (get_prop t ''title'') (get_prop p ''title''))
               (set_prop ''type'' ty
               (spread (spread [] p) t)))))"
  have c: "c = set_prop ''choices'' pc ?base"
    using assms pc by (simp add: createPrimitiveSchema_def bind_err_def)
  have "get_prop ?base ''title'' = js_or (get_prop t ''title'') (get_prop p ''title'')"
    "get_prop ?base ''description'' = js_or (get_prop t ''description'') (get_prop p ''description'')"
    "get_prop ?base ''default'' = js_nullish (get_prop t ''default'') (get_prop p ''default'')"
    "get_prop ?base ''type'' = ty"
    "get_prop ?base ''enum'' = get_prop t ''enum''"
    "has_key ''anyOf'' ?base = (has_key ''anyOf'' p \<or> has_key ''anyOf'' t)"
    by (simp_all add: obj_simps)
  note props = this
  show ?thesis
    apply (rule exI [of _ pc])
    apply (rule exI [of _ ?base])
    using pc c props by (intro conjI)
qed

lemma createPrimitiveSchema_props:
  assumes "createPrimitiveSchema p t ty = Inr c"
  shows "get_prop c ''title'' = js_or (get_prop t ''title'') (get_prop p ''title'')"
    and "get_prop c ''description'' = js_or (get_prop t ''description'') (get_prop p ''description'')"
    and "get_prop c ''default'' = js_nullish (get_prop t ''default'') (get_prop p ''default'')"
    and "get_prop c ''type'' = ty"
    and "get_prop c ''enum'' = get_prop t ''enum''"
    and "has_key ''anyOf'' c = (has_key ''anyOf'' p \<or> has_key ''anyOf'' t)"
  using createPrimitiveSchema_Inr [OF assms] by (auto simp: obj_simps)

lemma combineSchemas_typed:
  assumes t: "has_key ''type'' t" and c: "combineSchemas p t = Inr c"
  shows "get_prop c ''title'' = js_or (get_prop t ''title'') (get_prop p ''title'')"
    and "get_prop c ''description'' = js_or (get_prop t ''description'') (get_prop p ''description'')"
    and "get_prop c ''default'' = js_nullish (get_prop t ''default'') (get_prop p ''default'')"
    and "get_prop c ''type'' = get_prop t ''type''"
    and "has_key ''anyOf'' c = (has_key ''anyOf'' p \<or> has_key ''anyOf'' t)"
    and "has_key ''enum'' t \<Longrightarrow> get_prop c ''enum'' = get_prop t ''enum''"
proof -
  consider (arr) "get_prop t ''type'' = JStr ''array''"
    | (obj) "get_prop t ''type'' = JStr ''object''"
    | (prim) "get_prop t ''type'' \<noteq> JStr ''array''" "get_prop t ''type'' \<noteq> JStr ''object''"
    by blast
  then have "get_prop c ''title'' = js_or (get_prop t ''title'') (get_prop p ''title'')
    \<and> get_prop c ''description'' = js_or (get_prop t ''description'') (get_prop p ''description'')
    \<and> get_prop c ''default'' = js_nullish (get_prop t ''default'') (get_prop p ''default'')
    \<and> get_prop c ''type'' = get_prop t ''type''
    \<and> has_key ''anyOf'' c = (has_key ''anyOf'' p \<or> has_key ''anyOf'' t)
    \<and> (has_key ''enum'' t \<longrightarrow> get_prop c ''enum'' = get_prop t ''enum'')"
  proof cases
    case arr
    then have "c = set_prop ''default'' (js_nullish (get_prop t ''default'') (get_prop p ''default''))
               (set_prop ''description'' (js_or (get_prop t ''description'') (get_prop p ''description''))
               (set_prop ''title'' (js_or (get_prop t ''title'') (get_prop p ''title''))
               (set_prop ''type'' (JStr ''array'')
               (spread (spread [] p) t))))"
      using t c by (simp add: combineSchemas_def)
    then show ?thesis using arr by (simp add: obj_simps)
  next
    case obj
    then have "c = set_prop ''default'' (js_nullish (get_prop t ''default'') (get_prop p ''default''))
               (set_prop ''description'' (js_or (get_prop t ''description'') (get_prop p ''description''))
               (set_prop ''title'' (js_or (get_prop t ''title'') (get_prop p ''title''))
               (set_prop ''type'' (JStr ''object'')
               (spread (spread [] p) t))))"
      using t c by (simp add: combineSchemas_def)
    then show ?thesis using obj by (simp add: obj_simps)
  next
    case prim
    then have "createPrimitiveSchema p t (get_prop t ''type'') = Inr c"
      using t c by (simp add: combineSchemas_def)
    from createPrimitiveSchema_props [OF this] show ?thesis by simp
  qed
  then show "get_prop c ''title'' = js_or (get_prop t ''title'') (get_prop p ''title'')"
    and "get_prop c ''description'' = js_or (get_prop t ''description'') (get_prop p ''description'')"
    and "get_prop c ''default'' = js_nullish (get_prop t ''default'') (get_prop p ''default'')"
    and "get_prop c ''type'' = get_prop t ''type''"
    and "has_key ''anyOf'' c = (has_key ''anyOf'' p \<or> has_key ''anyOf'' t)"
    and "has_key ''enum'' t \<Longrightarrow> get_prop c ''enum'' = get_prop t ''enum''"
    by simp_all
qed

lemma choices_source:
  "js_or (js_or (in_and_get ''choices'' (set_prop ''enum'' (get_prop sel ''enum'') (spread [] sel)))
                (in_and_get ''choices'' (omit ''anyOf'' n)))
         JUndefined
   = (if truthy (get_prop sel ''choices'') then get_prop sel ''choices''
      else if truthy (get_prop n ''choices'') then get_prop n ''choices'' else JUndefined)"
proof -
  have 1: "in_and_get ''choices'' (set_prop ''enum'' (get_prop sel ''enum'') (spread [] sel))
           = (if has_key ''choices'' sel then get_prop sel ''choices'' else JBool False)"
    by (simp add: in_and_get_def has_key_typed get_prop_typed)
  have 2: "in_and_get ''choices'' (omit ''anyOf'' n)
           = (if has_key ''choices'' n then get_prop n ''choices'' else JBool False)"
    by (simp add: in_and_get_def has_key_omit get_prop_omit)
  have 3: "\<not> has_key ''choices'' sel \<Longrightarrow> \<not> truthy (get_prop sel ''choices'')"
    by (simp add: get_prop_absent)
  have 4: "\<not> has_key ''choices'' n \<Longrightarrow> \<not> truthy (get_prop n ''choices'')"
    by (simp add: get_prop_absent)
  show ?thesis
    unfolding 1 2 using 3 4 by (auto simp: js_or_def)
qed

section \<open>Facts about errors\<close>

lemma js_String_errors:
  "js_String v = Inl e \<Longrightarrow> e = TypeError"
  "js_join vs = Inl e \<Longrightarrow> e = TypeError"
  "js_element v = Inl e \<Longrightarrow> e = TypeError"
  by (induction v and vs and v rule: js_String_js_join_js_element.induct)
     (auto split: if_splits sum.splits)

lemma map_err_Inl: "map_err f xs = Inl e \<Longrightarrow> \<exists>x\<in>set xs. f x = Inl e"
  by (induction xs) (auto split: sum.splits)

lemma processChoice_errors: "processChoice c = Inl e \<Longrightarrow> e = TypeError"
  by (auto simp: processChoice_def bind_err_def split: if_splits sum.splits dest: js_String_errors(1))

lemma processGroup_errors: "processGroup kv = Inl e \<Longrightarrow> e = TypeError"
  by (auto simp: processGroup_def bind_err_def split: jsval.splits sum.splits
      dest!: map_err_Inl dest: js_String_errors(1))

lemma processChoices_errors: "processChoices ch = Inl e \<Longrightarrow> e = TypeError"
  by (auto simp: processChoices_def bind_err_def split: if_splits jsval.splits sum.splits
      dest!: map_err_Inl dest: processChoice_errors processGroup_errors)

lemma createPrimitiveSchema_errors: "createPrimitiveSchema p t ty = Inl e \<Longrightarrow> e = TypeError"
  by (auto simp: createPrimitiveSchema_def bind_err_def Let_def split: sum.splits
      dest: processChoices_errors)

lemma combineSchemas_errors:
  "has_key ''type'' t \<Longrightarrow> combineSchemas p t = Inl e \<Longrightarrow> e = TypeError"
  by (auto simp: combineSchemas_def Let_def split: if_splits dest: createPrimitiveSchema_errors)

section \<open>Facts about normalised choices\<close>

lemma map_err_Inr: "map_err f xs = Inr ys \<Longrightarrow> list_all2 (\<lambda>x y. f x = Inr y) xs ys"
  by (induction xs arbitrary: ys) (auto split: sum.splits)

lemma processChoice_Inr: "processChoice c = Inr p \<Longrightarrow> coerced_pair c p"
  by (auto simp: processChoice_def coerced_pair_def bind_err_def split: if_splits sum.splits)

lemma processGroup_Inr:
  "processGroup e = Inr e' \<Longrightarrow> fst e' = fst e \<and> coerced_group (snd e) (snd e')"
  by (auto simp: processGroup_def coerced_group_def bind_err_def split: jsval.splits sum.splits)

lemma processChoices_array:
  assumes "processChoices (JArr cs) = Inr out"
  shows "normalized_choices (JArr cs) out"
proof -
  from assms obtain ps where ps: "map_err processChoice cs = Inr ps" and out: "out = JArr ps"
    by (auto simp: processChoices_def bind_err_def split: sum.splits)
  have "list_all2 (\<lambda>x y. processChoice x = Inr y) cs ps" using ps by (rule map_err_Inr)
  then have "list_all2 coerced_pair cs ps"
    by (rule list_all2_mono) (rule processChoice_Inr)
  then show ?thesis by (simp add: normalized_choices_def out)
qed

lemma groups_map_of:
  assumes "list_all2 (\<lambda>e e'. fst e' = fst e \<and> coerced_group (snd e) (snd e')) es es'"
  shows "rel_option coerced_group (map_of es k) (map_of es' k)"
  using assms
proof (induction rule: list_all2_induct)
  case Nil
  then show ?case by simp
next
  case (Cons e es e' es')
  obtain a x where e: "e = (a, x)" by (cases e)
  obtain b y where e': "e' = (b, y)" by (cases e')
  from Cons show ?case by (simp add: e e')
qed

lemma groups_keys:
  assumes "list_all2 (\<lambda>e e'. fst e' = fst e \<and> coerced_group (snd e) (snd e')) es es'"
  shows "map fst es' = map fst es"
  using assms by (induction rule: list_all2_induct) simp_all

lemma processChoices_object:
  assumes "processChoices (JObj gs) = Inr out"
  shows "normalized_choices (JObj gs) out"
proof -
  let ?es = "own_entries gs"
  from assms obtain es' where es': "map_err processGroup ?es = Inr es'"
    and out: "out = object_fromEntries es'"
    by (auto simp: processChoices_def object_entries_def bind_err_def split: sum.splits)
  have "list_all2 (\<lambda>x y. processGroup x = Inr y) ?es es'" using es' by (rule map_err_Inr)
  then have rel: "list_all2 (\<lambda>e e'. fst e' = fst e \<and> coerced_group (snd e) (snd e')) ?es es'"
    by (rule list_all2_mono) (rule processGroup_Inr)
  have d: "distinct (map fst es')"
    using groups_keys [OF rel] by (simp add: own_entries_def distinct_clearjunk)
  have m: "map_of (fold (\<lambda>(k, v). set_prop k v) es' []) = map_of es'"
    using map_of_fold_set_prop [OF d, of "[]"] by simp
  have "rel_option coerced_group (map_of gs k) (map_of (fold (\<lambda>(k, v). set_prop k v) es' []) k)" for k
    using groups_map_of [OF rel, of k] by (simp add: m own_entries_def map_of_clearjunk)
  then show ?thesis by (simp add: normalized_choices_def out object_fromEntries_def)
qed

lemma printable_String:
  "(\<exists>s. js_String v = Inr s) = printable v"
  "(\<exists>s. js_join vs = Inr s) = (\<forall>x\<in>set vs. printable x)"
  "(\<exists>s. js_element v = Inr s) = printable v"
proof (induction v and vs and v rule: js_String_js_join_js_element.induct)
  case (10 x y ys)
  then show ?case by (auto split: sum.splits)
qed auto

lemma map_err_returns:
  "(\<exists>ys. map_err f xs = Inr ys) = (\<forall>x\<in>set xs. \<exists>y. f x = Inr y)"
  by (induction xs) (auto split: sum.splits)

lemma processChoice_returns:
  "(\<exists>p. processChoice c = Inr p) =
     (c \<noteq> JUndefined \<and> c \<noteq> JNull
        \<and> printable (js_member c ''label'') \<and> printable (js_member c ''value''))"
  using printable_String(1) [of "js_member c ''label''"] printable_String(1) [of "js_member c ''value''"]
  by (auto simp: processChoice_def bind_err_def split: sum.splits)

lemma processGroup_returns:
  "(\<exists>e'. processGroup e = Inr e') = (\<exists>xs. snd e = JArr xs \<and> (\<forall>v\<in>set xs. printable v))"
proof (cases "snd e")
  case (JArr xs)
  have "(\<exists>ss. map_err js_String xs = Inr ss) = (\<forall>v\<in>set xs. printable v)"
    by (simp add: map_err_returns printable_String(1))
  then show ?thesis
    by (auto simp: processGroup_def bind_err_def JArr split: sum.splits)
qed (simp_all add: processGroup_def)

lemma own_entries_mem: "((k, x) \<in> set (own_entries gs)) = (map_of gs k = Some x)"
proof -
  have "distinct (map fst (own_entries gs))" by (simp add: own_entries_def distinct_clearjunk)
  then have "((k, x) \<in> set (own_entries gs)) = (map_of (own_entries gs) k = Some x)"
    by simp
  then show ?thesis by (simp add: own_entries_def map_of_clearjunk)
qed

lemma processChoices_returns:
  assumes "truthy src \<or> src = JUndefined"
  shows "(\<exists>out. processChoices src = Inr out) = convertible_choices src"
proof (cases src)
  case JUndefined
  then show ?thesis by (simp add: processChoices_def convertible_choices_def)
next
  case JNull
  then show ?thesis using assms by simp
next
  case (JBool b)
  then show ?thesis using assms
    by (simp add: processChoices_def convertible_choices_def object_entries_def bind_err_def)
next
  case (JNum x)
  then show ?thesis
    by (simp add: processChoices_def convertible_choices_def object_entries_def bind_err_def)
next
  case (JStr s)
  then obtain c cs where s: "s = c # cs" using assms by (cases s) auto
  have "map_err processGroup (object_entries src) = Inl TypeError"
    by (simp add: object_entries_def JStr s processGroup_def)
  then have "\<not> (\<exists>es. map_err processGroup (object_entries src) = Inr es)"
    by simp
  then show ?thesis
    by (auto simp: processChoices_def convertible_choices_def JStr s bind_err_def split: sum.splits)
next
  case (JArr cs)
  have "(\<exists>ps. map_err processChoice cs = Inr ps) = convertible_choices src"
    by (simp add: map_err_returns processChoice_returns convertible_choices_def JArr)
  then show ?thesis
    by (auto simp: processChoices_def JArr bind_err_def split: sum.splits)
next
  case (JObj gs)
  have "(\<exists>es. map_err processGroup (own_entries gs) = Inr es) =
        (\<forall>e\<in>set (own_entries gs). \<exists>xs. snd e = JArr xs \<and> (\<forall>v\<in>set xs. printable v))"
    by (simp only: map_err_returns processGroup_returns)
  also have "\<dots> = (\<forall>k x. (k, x) \<in> set (own_entries gs) \<longrightarrow>
                        (\<exists>xs. x = JArr xs \<and> (\<forall>v\<in>set xs. printable v)))"
    by force
  also have "\<dots> = convertible_choices src"
    by (simp add: own_entries_mem convertible_choices_def JObj)
  finally show ?thesis
    by (auto simp: processChoices_def JObj object_entries_def bind_err_def split: sum.splits)
qed

lemma processChoices_normalized:
  assumes "truthy src \<or> src = JUndefined" and "processChoices src = Inr out"
  shows "normalized_choices src out"
proof (cases src)
  case JUndefined
  then show ?thesis using assms(2) by (simp add: processChoices_def normalized_choices_def)
next
  case JNull
  then show ?thesis using assms(1) by simp
next
  case (JBool b)
  then show ?thesis using assms
    by (auto simp: processChoices_def normalized_choices_def object_entries_def bind_err_def
        object_fromEntries_def)
next
  case (JNum x)
  then show ?thesis using assms
    by (auto simp: processChoices_def normalized_choices_def object_entries_def bind_err_def
        object_fromEntries_def split: if_splits)
next
  case (JStr s)
  have "\<not> convertible_choices src" by (simp add: convertible_choices_def JStr)
  then show ?thesis using processChoices_returns [OF assms(1)] assms(2) by blast
next
  case (JArr cs)
  then show ?thesis using assms(2) processChoices_array by simp
next
  case (JObj gs)
  then show ?thesis using assms(2) processChoices_object by simp
qed

section \<open>Facts about the entry point\<close>

lemma extractSchema_union:
  assumes a: "get_prop n ''anyOf'' = JArr alts"
  shows "extractSchema n =
     (if nonNullSchemas alts = [] then Inl EmptyUnionError
      else (case selectSchema (nonNullSchemas alts) of
              JObj sel \<Rightarrow>
                bind_err (combineSchemas (omit ''anyOf'' n)
                            (set_prop ''enum'' (get_prop sel ''enum'') (spread [] sel)))
                  (\<lambda>c. Inr \<lparr>schema = c, parentTitle = None, parentDescription = None,
                     isNullable = list_ex (\<lambda>s. hasType s \<and> typeOf s = JStr ''null'') alts\<rparr>)
            | _ \<Rightarrow> Inl TypeError))"
proof -
  have "has_key ''anyOf'' n" using a by (auto simp: has_key_def get_prop_def split: option.splits)
  then show ?thesis
    by (simp add: extractSchema_def isAnyOfSchema_def extractFromAnyOf_def a Let_def
        split: jsval.splits)
qed

lemma extractSchema_union_Inr:
  assumes a: "get_prop n ''anyOf'' = JArr alts" and r: "extractSchema n = Inr r"
  shows "\<exists>sel. selectSchema (nonNullSchemas alts) = JObj sel \<and> has_key ''type'' sel
           \<and> JObj sel \<in> set (nonNullSchemas alts)
           \<and> combineSchemas (omit ''anyOf'' n)
                (set_prop ''enum'' (get_prop sel ''enum'') (spread [] sel)) = Inr (schema r)
           \<and> isNullable r = list_ex (\<lambda>s. hasType s \<and> typeOf s = JStr ''null'') alts"
proof -
  have ne: "nonNullSchemas alts \<noteq> []"
    using r extractSchema_union [OF a] by (auto split: if_splits)
  then obtain sel where s: "selectSchema (nonNullSchemas alts) = JObj sel" "has_key ''type'' sel"
      "JObj sel \<in> set (nonNullSchemas alts)"
    using selected_object by blast
  have "bind_err (combineSchemas (omit ''anyOf'' n)
                            (set_prop ''enum'' (get_prop sel ''enum'') (spread [] sel)))
                  (\<lambda>c. Inr \<lparr>schema = c, parentTitle = None, parentDescription = None,
                     isNullable = list_ex (\<lambda>s. hasType s \<and> typeOf s = JStr ''null'') alts\<rparr>) = Inr r"
    using r ne s(1) extractSchema_union [OF a] by simp
  then have "combineSchemas (omit ''anyOf'' n)
                (set_prop ''enum'' (get_prop sel ''enum'') (spread [] sel)) = Inr (schema r)
           \<and> isNullable r = list_ex (\<lambda>s. hasType s \<and> typeOf s = JStr ''null'') alts"
    by (auto simp: bind_err_def split: sum.splits)
  then show ?thesis using s by blast
qed

lemma union_result:
  assumes a: "get_prop n ''anyOf'' = JArr alts" and r: "extractSchema n = Inr r"
  shows "\<exists>sel. selectSchema (nonNullSchemas alts) = JObj sel
           \<and> JObj sel \<in> set (nonNullSchemas alts)
           \<and> get_prop (schema r) ''title'' = js_or (get_prop sel ''title'') (get_prop n ''title'')
           \<and> get_prop (schema r) ''description'' =
               js_or (get_prop sel ''description'') (get_prop n ''description'')
           \<and> get_prop (schema r) ''default'' =
               js_nullish (get_prop sel ''default'') (get_prop n ''default'')
           \<and> get_prop (schema r) ''type'' = get_prop sel ''type''
           \<and> get_prop (schema r) ''enum'' = get_prop sel ''enum''
           \<and> has_key ''anyOf'' (schema r) = has_key ''anyOf'' sel"
proof -
  from extractSchema_union_Inr [OF a r] obtain sel where
    s: "selectSchema (nonNullSchemas alts) = JObj sel" "has_key ''type'' sel"
       "JObj sel \<in> set (nonNullSchemas alts)"
    and c: "combineSchemas (omit ''anyOf'' n)
              (set_prop ''enum'' (get_prop sel ''enum'') (spread [] sel)) = Inr (schema r)"
    by blast
  let ?t = "set_prop ''enum'' (get_prop sel ''enum'') (spread [] sel)"
  have t: "has_key ''type'' ?t" using s(2) by (simp add: has_key_typed)
  have e: "has_key ''enum'' ?t" by (simp add: has_key_typed)
  note m = combineSchemas_typed [OF t c]
  have "get_prop (schema r) ''title'' = js_or (get_prop sel ''title'') (get_prop n ''title'')"
    using m(1) by (simp add: get_prop_typed get_prop_omit)
  moreover have "get_prop (schema r) ''description'' =
               js_or (get_prop sel ''description'') (get_prop n ''description'')"
    using m(2) by (simp add: get_prop_typed get_prop_omit)
  moreover have "get_prop (schema r) ''default'' =
               js_nullish (get_prop sel ''default'') (get_prop n ''default'')"
    using m(3) by (simp add: get_prop_typed get_prop_omit)
  moreover have "get_prop (schema r) ''type'' = get_prop sel ''type''"
    using m(4) by (simp add: get_prop_typed)
  moreover have "get_prop (schema r) ''enum'' = get_prop sel ''enum''"
    using m(6) [OF e] by (simp add: get_prop_typed)
  moreover have "has_key ''anyOf'' (schema r) = has_key ''anyOf'' sel"
    using m(5) by (simp add: has_key_typed has_key_omit)
  ultimately show ?thesis using s(1) s(3) by blast
qed

lemma union_returns_array:
  assumes "has_key ''anyOf'' n" and "extractSchema n = Inr r"
  shows "\<exists>alts. get_prop n ''anyOf'' = JArr alts"
  using assms
  by (cases "get_prop n ''anyOf''")
     (simp_all add: extractSchema_def isAnyOfSchema_def extractFromAnyOf_def)

lemma primitive_extract:
  assumes a: "get_prop n ''anyOf'' = JArr alts"
    and s: "selectSchema (nonNullSchemas alts) = JObj sel"
    and prim: "isSchema_primitive (JObj sel)"
  shows "extractSchema n =
     bind_err (processChoices
                 (if truthy (get_prop sel ''choices'') then get_prop sel ''choices''
                  else if truthy (get_prop n ''choices'') then get_prop n ''choices''
                  else JUndefined))
       (\<lambda>pc. Inr \<lparr>schema = set_prop ''choices'' pc
                 (set_prop ''enum'' (get_prop sel ''enum'')
                 (set_prop ''default''
                    (js_nullish (get_prop sel ''default'') (get_prop n ''default''))
                 (set_prop ''description''
                    (js_or (get_prop sel ''description'') (get_prop n ''description''))
                 (set_prop ''title''
                    (js_or (get_prop sel ''title'') (get_prop n ''title''))
                 (set_prop ''type'' (get_prop sel ''type'')
                 (spread (spread [] (omit ''anyOf'' n))
                    (set_prop ''enum'' (get_prop sel ''enum'') (spread [] sel)))))))),
               parentTitle = None, parentDescription = None,
               isNullable = list_ex (\<lambda>s. hasType s \<and> typeOf s = JStr ''null'') alts\<rparr>)"
proof -
  let ?t = "set_prop ''enum'' (get_prop sel ''enum'') (spread [] sel)"
  let ?p = "omit ''anyOf'' n"
  have ne: "nonNullSchemas alts \<noteq> []"
    using s by (auto simp: selectSchema_Nil)
  have k: "has_key ''type'' sel"
    using prim by (simp add: isSchema_primitive_def hasType_def)
  have ty: "get_prop sel ''type'' \<noteq> JStr ''array''" "get_prop sel ''type'' \<noteq> JStr ''object''"
    using prim by (auto simp: isSchema_primitive_def typeOf_def)
  have c: "combineSchemas ?p ?t = createPrimitiveSchema ?p ?t (get_prop sel ''type'')"
    using k ty by (simp add: combineSchemas_def has_key_typed get_prop_typed)
  have e: "extractSchema n =
      bind_err (createPrimitiveSchema ?p ?t (get_prop sel ''type''))
        (\<lambda>c. Inr \<lparr>schema = c, parentTitle = None, parentDescription = None,
           isNullable = list_ex (\<lambda>s. hasType s \<and> typeOf s = JStr ''null'') alts\<rparr>)"
    using extractSchema_union [OF a] ne s c by simp
  show ?thesis
    unfolding e createPrimitiveSchema_def Let_def choices_source
    by (simp add: bind_err_def get_prop_typed get_prop_omit split: sum.splits)
qed

section \<open>Evaluating the model on concrete schemas\<close>

lemmas eval_simps = extractSchema_def isAnyOfSchema_def extractFromAnyOf_def has_key_def
  get_prop_def set_prop_def spread_def own_entries_def omit_def nonNullSchemas_def selectSchema_def
  array_find_def array_first_def js_or_def js_nullish_def hasType_def typeOf_def
  isSchema_primitive_def isSchema_array_def isSchema_object_def combineSchemas_def
  createPrimitiveSchema_def processChoices_def in_and_get_def bind_err_def Let_def
  AList.clearjunk.simps AList.delete_eq

lemma sample_strings:
  "number_string 1 = ''1''"
  "number_string 2 = ''2''"
  "number_string 10 = ''10''"
  "number_string (- 305) = ''-305''"
  by (simp_all add: number_string_def safe_integer_def string_of_int_def string_of_nat.simps
      digit_char_def)

lemma combineSchemas_can_throw: "combineSchemas p [] = Inl InvalidSchemaShape"
  by (simp add: combineSchemas_def has_key_def)

lemma choices_scalar_string_throws:
  "extractSchema [(''anyOf'', JArr [JObj [(''type'', JStr ''string''), (''choices'', JStr ''ab'')]])]
     = Inl TypeError"
  by (simp add: eval_simps processGroup_def object_entries_def)

section \<open>The claims\<close>

text \<open>
  C1 (union elimination), as stated, fails. The claim: whenever \<^verbatim>\<open>extractSchema\<close> succeeds,
  the returned schema carries no \<^verbatim>\<open>anyOf\<close> key at top level. An alternative that has
  both a \<^verbatim>\<open>type\<close> and an \<^verbatim>\<open>anyOf\<close> field passes the filter, is selected, and the
  spread copies its \<^verbatim>\<open>anyOf\<close> into the result: here for
  \<^verbatim>\<open>{"anyOf": [{"type": "string", "anyOf": []}]}\<close>.
\<close>

theorem union_eliminated_counterexample:
  "extractSchema [(''anyOf'', JArr [JObj [(''type'', JStr ''string''), (''anyOf'', JArr [])]])]
     = Inr \<lparr>schema = [(''type'', JStr ''string''), (''anyOf'', JArr []), (''enum'', JUndefined),
                      (''title'', JUndefined), (''description'', JUndefined),
                      (''default'', JUndefined), (''choices'', JUndefined)],
            parentTitle = None, parentDescription = None, isNullable = False\<rparr>
   \<and> has_key ''anyOf'' [(''type'', JStr ''string''), (''anyOf'', JArr []), (''enum'', JUndefined),
                      (''title'', JUndefined), (''description'', JUndefined),
                      (''default'', JUndefined), (''choices'', JUndefined)]"
  by (simp add: eval_simps)

text \<open>
  C1, amended. Whenever \<^verbatim>\<open>extractSchema\<close> succeeds, the returned schema carries an
  \<^verbatim>\<open>anyOf\<close> key at top level exactly when the input is a union whose selected
  representative itself carries one; so the result is free of \<^verbatim>\<open>anyOf\<close> for a node that
  is not a union, and for a union whose selected alternative has no \<^verbatim>\<open>anyOf\<close> field.
\<close>

theorem union_eliminated_unless_selected_has_anyOf:
  assumes "extractSchema n = Inr r"
  shows "has_key ''anyOf'' (schema r) \<longleftrightarrow>
         (\<exists>alts sel. get_prop n ''anyOf'' = JArr alts
            \<and> selectSchema (nonNullSchemas alts) = JObj sel \<and> has_key ''anyOf'' sel)"
proof (cases "has_key ''anyOf'' n")
  case False
  then have "schema r = n" using assms by (auto simp: extractSchema_def isAnyOfSchema_def)
  moreover have "\<not> (\<exists>alts. get_prop n ''anyOf'' = JArr alts)"
    using False by (simp add: get_prop_absent)
  ultimately show ?thesis using False by simp
next
  case True
  then obtain alts where a: "get_prop n ''anyOf'' = JArr alts"
    using union_returns_array assms by blast
  from union_result [OF a assms] obtain sel where
    "selectSchema (nonNullSchemas alts) = JObj sel"
    "has_key ''anyOf'' (schema r) = has_key ''anyOf'' sel"
    by blast
  then show ?thesis using a by auto
qed

theorem union_eliminated_unless_selected_has_anyOf_witness:
  "extractSchema [(''anyOf'', JArr [JObj [(''type'', JStr ''string'')], JObj [(''type'', JStr ''null'')]])]
     = Inr \<lparr>schema = [(''type'', JStr ''string''), (''enum'', JUndefined), (''title'', JUndefined),
               (''description'', JUndefined), (''default'', JUndefined), (''choices'', JUndefined)],
            parentTitle = None, parentDescription = None, isNullable = True\<rparr>
   \<and> \<not> has_key ''anyOf'' (schema \<lparr>schema = [(''type'', JStr ''string''), (''enum'', JUndefined), (''title'', JUndefined),
               (''description'', JUndefined), (''default'', JUndefined), (''choices'', JUndefined)],
            parentTitle = None, parentDescription = None, isNullable = True\<rparr>)"
proof -
  let ?n = "[(''anyOf'', JArr [JObj [(''type'', JStr ''string'')], JObj [(''type'', JStr ''null'')]])]"
  let ?r = "\<lparr>schema = [(''type'', JStr ''string''), (''enum'', JUndefined), (''title'', JUndefined),
               (''description'', JUndefined), (''default'', JUndefined), (''choices'', JUndefined)],
            parentTitle = None, parentDescription = None, isNullable = True\<rparr>"
  have r: "extractSchema ?n = Inr ?r"
    by (simp add: eval_simps)
  have "\<not> (\<exists>alts sel. get_prop ?n ''anyOf'' = JArr alts
            \<and> selectSchema (nonNullSchemas alts) = JObj sel \<and> has_key ''anyOf'' sel)"
    by (auto simp: eval_simps)
  then have "\<not> has_key ''anyOf'' (schema ?r)"
    using union_eliminated_unless_selected_has_anyOf [OF r] by blast
  with r show ?thesis by blast
qed

text \<open>
  C2 (representative selection), as stated, fails. The claim: a union with at least one
  non-null alternative selects by precedence and, when no alternative is primitive, array
  or object (for example when every alternative is itself a union with no \<^verbatim>\<open>type\<close>
  field), selects the first alternative rather than failing. Alternatives with no
  \<^verbatim>\<open>type\<close> field are filtered out before the selection, so the union
  \<^verbatim>\<open>{"anyOf": [{"anyOf": [{"type": "string"}]}]}\<close>, whose only alternative is not the
  null marker, fails with the empty-union error.
\<close>

theorem representative_counterexample:
  "typeOf (JObj [(''anyOf'', JArr [JObj [(''type'', JStr ''string'')]])]) \<noteq> JStr ''null''
   \<and> extractSchema [(''anyOf'', JArr [JObj [(''anyOf'', JArr [JObj [(''type'', JStr ''string'')]])]])]
       = Inl EmptyUnionError"
  by (simp add: eval_simps)

text \<open>
  C2, amended. For a union with at least one alternative that has a \<^verbatim>\<open>type\<close> field
  other than \<^verbatim>\<open>"null"\<close>, the resolver selects among these typed non-null alternatives:
  the first that is primitive, else the first that is an array, else the first that is an
  object, else the first of them in the original order; and the result of
  \<^verbatim>\<open>extractSchema\<close> is the merge of the parent metadata with this alternative.
  Alternatives with no \<^verbatim>\<open>type\<close> field are never candidates.
\<close>

theorem representative_precedence:
  assumes "get_prop n ''anyOf'' = JArr alts" and "nonNullSchemas alts \<noteq> []"
  shows "\<exists>sel. selectSchema (nonNullSchemas alts) = JObj sel
           \<and> precedence_choice (nonNullSchemas alts) (JObj sel)
           \<and> extractSchema n =
               bind_err (combineSchemas (omit ''anyOf'' n)
                           (set_prop ''enum'' (get_prop sel ''enum'') (spread [] sel)))
                 (\<lambda>c. Inr \<lparr>schema = c, parentTitle = None, parentDescription = None,
                    isNullable = list_ex (\<lambda>s. hasType s \<and> typeOf s = JStr ''null'') alts\<rparr>)"
proof -
  from selected_object [OF assms(2)] obtain sel where
    s: "selectSchema (nonNullSchemas alts) = JObj sel" by blast
  have "precedence_choice (nonNullSchemas alts) (selectSchema (nonNullSchemas alts))"
    using assms(2) nonNull_truthy by (rule selectSchema_precedence)
  then have p: "precedence_choice (nonNullSchemas alts) (JObj sel)" by (simp add: s)
  have "extractSchema n =
               bind_err (combineSchemas (omit ''anyOf'' n)
                           (set_prop ''enum'' (get_prop sel ''enum'') (spread [] sel)))
                 (\<lambda>c. Inr \<lparr>schema = c, parentTitle = None, parentDescription = None,
                    isNullable = list_ex (\<lambda>s. hasType s \<and> typeOf s = JStr ''null'') alts\<rparr>)"
    using extractSchema_union [OF assms(1)] assms(2) s by simp
  with s p show ?thesis by blast
qed

theorem representative_precedence_witness:
  "nonNullSchemas [JObj [(''type'', JStr ''object''), (''properties'', JObj [])],
                   JObj [(''type'', JStr ''array''), (''items'', JObj [(''type'', JStr ''integer'')])],
                   JObj [(''type'', JStr ''null'')],
                   JObj [(''type'', JStr ''string'')]]
     = [JObj [(''type'', JStr ''object''), (''properties'', JObj [])],
        JObj [(''type'', JStr ''array''), (''items'', JObj [(''type'', JStr ''integer'')])],
        JObj [(''type'', JStr ''string'')]]
   \<and> selectSchema [JObj [(''type'', JStr ''object''), (''properties'', JObj [])],
        JObj [(''type'', JStr ''array''), (''items'', JObj [(''type'', JStr ''integer'')])],
        JObj [(''type'', JStr ''string'')]] = JObj [(''type'', JStr ''string'')]
   \<and> precedence_choice [JObj [(''type'', JStr ''object''), (''properties'', JObj [])],
        JObj [(''type'', JStr ''array''), (''items'', JObj [(''type'', JStr ''integer'')])],
        JObj [(''type'', JStr ''string'')]] (JObj [(''type'', JStr ''string'')])"
proof -
  let ?alts = "[JObj [(''type'', JStr ''object''), (''properties'', JObj [])],
                   JObj [(''type'', JStr ''array''), (''items'', JObj [(''type'', JStr ''integer'')])],
                   JObj [(''type'', JStr ''null'')],
                   JObj [(''type'', JStr ''string'')]]"
  let ?nn = "[JObj [(''type'', JStr ''object''), (''properties'', JObj [])],
        JObj [(''type'', JStr ''array''), (''items'', JObj [(''type'', JStr ''integer'')])],
        JObj [(''type'', JStr ''string'')]]"
  have a: "get_prop [(''anyOf'', JArr ?alts)] ''anyOf'' = JArr ?alts"
    by (simp add: get_prop_def)
  have nn: "nonNullSchemas ?alts = ?nn"
    by (simp add: eval_simps)
  have ne: "nonNullSchemas ?alts \<noteq> []"
    by (simp add: nn)
  have s: "selectSchema ?nn = JObj [(''type'', JStr ''string'')]"
    by (simp add: eval_simps)
  have "precedence_choice ?nn (JObj [(''type'', JStr ''string'')])"
    using representative_precedence [OF a ne] unfolding nn s by blast
  with nn s show ?thesis by blast
qed

text \<open>
  C3 (empty-union failure). When the \<^verbatim>\<open>anyOf\<close> list of the input is empty, or every
  member of it is an object whose \<^verbatim>\<open>type\<close> is exactly \<^verbatim>\<open>"null"\<close>, \<^verbatim>\<open>extractSchema\<close>
  fails with the empty-union error and returns no result; so it does for
  \<^verbatim>\<open>{"anyOf": [{"type": "null"}]}\<close>.
\<close>

theorem empty_union_fails:
  assumes "get_prop n ''anyOf'' = JArr alts"
    and "\<forall>a\<in>set alts. \<exists>fs. a = JObj fs \<and> get_prop fs ''type'' = JStr ''null''"
  shows "extractSchema n = Inl EmptyUnionError"
proof -
  have "nonNullSchemas alts = []"
    using assms(2) by (auto simp: nonNullSchemas_def filter_empty_conv typeOf_def)
  then show ?thesis using extractSchema_union [OF assms(1)] by simp
qed

theorem empty_union_fails_witness:
  "get_prop [(''anyOf'', JArr [JObj [(''type'', JStr ''null'')]])] ''anyOf'' = JArr [JObj [(''type'', JStr ''null'')]]
   \<and> extractSchema [(''anyOf'', JArr [JObj [(''type'', JStr ''null'')]])] = Inl EmptyUnionError
   \<and> extractSchema [(''anyOf'', JArr [])] = Inl EmptyUnionError"
proof -
  have a: "get_prop [(''anyOf'', JArr [JObj [(''type'', JStr ''null'')]])] ''anyOf'' = JArr [JObj [(''type'', JStr ''null'')]]"
    by (simp add: get_prop_def)
  have b: "\<forall>a\<in>set [JObj [(''type'', JStr ''null'')]]. \<exists>fs. a = JObj fs \<and> get_prop fs ''type'' = JStr ''null''"
    by (simp add: get_prop_def)
  have c: "get_prop [(''anyOf'', JArr [])] ''anyOf'' = JArr []"
    by (simp add: get_prop_def)
  have d: "\<forall>a\<in>set ([] :: jsval list). \<exists>fs. a = JObj fs \<and> get_prop fs ''type'' = JStr ''null''"
    by simp
  show ?thesis using a empty_union_fails [OF a b] empty_union_fails [OF c d] by simp
qed

text \<open>
  C4 (nullability). Whenever \<^verbatim>\<open>extractSchema\<close> returns a result for a union node, its
  \<^verbatim>\<open>isNullable\<close> flag is true exactly when the \<^verbatim>\<open>anyOf\<close> list contains an alternative
  whose \<^verbatim>\<open>type\<close> is \<^verbatim>\<open>"null"\<close>. The witness is the spec's example: a string
  alternative and a null alternative give \<^verbatim>\<open>isNullable = true\<close> and a schema of type
  string.
\<close>

theorem nullability_correct:
  assumes "get_prop n ''anyOf'' = JArr alts" and "extractSchema n = Inr r"
  shows "isNullable r \<longleftrightarrow> (\<exists>fs. JObj fs \<in> set alts \<and> get_prop fs ''type'' = JStr ''null'')"
proof -
  have "isNullable r = list_ex (\<lambda>s. hasType s \<and> typeOf s = JStr ''null'') alts"
    using extractSchema_union_Inr [OF assms] by blast
  also have "\<dots> \<longleftrightarrow> (\<exists>fs. JObj fs \<in> set alts \<and> get_prop fs ''type'' = JStr ''null'')"
  proof
    assume "list_ex (\<lambda>s. hasType s \<and> typeOf s = JStr ''null'') alts"
    then obtain s where s: "s \<in> set alts" "hasType s" "typeOf s = JStr ''null''"
      by (auto simp: list_ex_iff)
    from hasType_obj [OF s(2)] obtain fs where "s = JObj fs" by blast
    with s show "\<exists>fs. JObj fs \<in> set alts \<and> get_prop fs ''type'' = JStr ''null''"
      by (auto simp: typeOf_def)
  next
    assume "\<exists>fs. JObj fs \<in> set alts \<and> get_prop fs ''type'' = JStr ''null''"
    then obtain fs where fs: "JObj fs \<in> set alts" "get_prop fs ''type'' = JStr ''null''" by blast
    then have "has_key ''type'' fs" by (auto simp: has_key_def get_prop_def split: option.splits)
    with fs show "list_ex (\<lambda>s. hasType s \<and> typeOf s = JStr ''null'') alts"
      by (auto simp: list_ex_iff hasType_def typeOf_def intro!: bexI [of _ "JObj fs"])
  qed
  finally show ?thesis .
qed

theorem nullability_correct_witness:
  "extractSchema [(''anyOf'', JArr [JObj [(''type'', JStr ''string'')], JObj [(''type'', JStr ''null'')]])]
     = Inr \<lparr>schema = [(''type'', JStr ''string''), (''enum'', JUndefined), (''title'', JUndefined),
               (''description'', JUndefined), (''default'', JUndefined), (''choices'', JUndefined)],
            parentTitle = None, parentDescription = None, isNullable = True\<rparr>
   \<and> isNullable \<lparr>schema = [(''type'', JStr ''string''), (''enum'', JUndefined), (''title'', JUndefined),
               (''description'', JUndefined), (''default'', JUndefined), (''choices'', JUndefined)],
            parentTitle = None, parentDescription = None, isNullable = True\<rparr>
   \<and> (\<exists>fs. JObj fs \<in> set [JObj [(''type'', JStr ''string'')], JObj [(''type'', JStr ''null'')]]
         \<and> get_prop fs ''type'' = JStr ''null'')"
proof -
  let ?n = "[(''anyOf'', JArr [JObj [(''type'', JStr ''string'')], JObj [(''type'', JStr ''null'')]])]"
  let ?r = "\<lparr>schema = [(''type'', JStr ''string''), (''enum'', JUndefined), (''title'', JUndefined),
               (''description'', JUndefined), (''default'', JUndefined), (''choices'', JUndefined)],
            parentTitle = None, parentDescription = None, isNullable = True\<rparr>"
  have a: "get_prop ?n ''anyOf'' = JArr [JObj [(''type'', JStr ''string'')], JObj [(''type'', JStr ''null'')]]"
    by (simp add: get_prop_def)
  have r: "extractSchema ?n = Inr ?r"
    by (simp add: eval_simps)
  show ?thesis using r nullability_correct [OF a r] by simp
qed

text \<open>
  C5 (enum normalisation), as stated, fails. The claim: the selected alternative's
  \<^verbatim>\<open>enum\<close> is normalised to strings, non-string entries coerced. The code only casts
  the type of \<^verbatim>\<open>selectedSchema.enum\<close>, which does nothing at run time: the numbers of
  \<^verbatim>\<open>{"anyOf": [{"type": "integer", "enum": [1, 2]}]}\<close> come out as numbers.
\<close>

theorem enum_normalized_counterexample:
  "extractSchema [(''anyOf'', JArr [JObj [(''type'', JStr ''integer''), (''enum'', JArr [JNum 1, JNum 2])]])]
     = Inr \<lparr>schema = [(''type'', JStr ''integer''), (''enum'', JArr [JNum 1, JNum 2]),
                      (''title'', JUndefined), (''description'', JUndefined),
                      (''default'', JUndefined), (''choices'', JUndefined)],
            parentTitle = None, parentDescription = None, isNullable = False\<rparr>
   \<and> get_prop [(''type'', JStr ''integer''), (''enum'', JArr [JNum 1, JNum 2]),
                      (''title'', JUndefined), (''description'', JUndefined),
                      (''default'', JUndefined), (''choices'', JUndefined)] ''enum''
       = JArr [JNum 1, JNum 2]
   \<and> JArr [JNum 1, JNum 2] \<noteq> JArr [JStr ''1'', JStr ''2'']"
  by (simp add: eval_simps)

text \<open>
  C5, amended. For every union resolution that succeeds, the result's \<^verbatim>\<open>enum\<close> is the
  selected alternative's \<^verbatim>\<open>enum\<close> as it is, entries not coerced, and
  \<^verbatim>\<open>undefined\<close> when the alternative has none; the parent union's \<^verbatim>\<open>enum\<close> is never
  merged into the result.
\<close>

theorem enum_from_child_unchanged:
  assumes "get_prop n ''anyOf'' = JArr alts" and "extractSchema n = Inr r"
  shows "\<exists>sel. selectSchema (nonNullSchemas alts) = JObj sel
           \<and> get_prop (schema r) ''enum'' = get_prop sel ''enum''"
  using union_result [OF assms] by blast

theorem enum_from_child_unchanged_witness:
  "extractSchema [(''anyOf'', JArr [JObj [(''type'', JStr ''string'')]]), (''enum'', JArr [JStr ''a''])]
     = Inr \<lparr>schema = [(''enum'', JUndefined), (''type'', JStr ''string''), (''title'', JUndefined),
                      (''description'', JUndefined), (''default'', JUndefined), (''choices'', JUndefined)],
            parentTitle = None, parentDescription = None, isNullable = False\<rparr>
   \<and> (\<exists>sel. selectSchema (nonNullSchemas [JObj [(''type'', JStr ''string'')]]) = JObj sel
           \<and> get_prop (schema \<lparr>schema = [(''enum'', JUndefined), (''type'', JStr ''string''), (''title'', JUndefined),
                      (''description'', JUndefined), (''default'', JUndefined), (''choices'', JUndefined)],
            parentTitle = None, parentDescription = None, isNullable = False\<rparr>) ''enum'' = get_prop sel ''enum'')"
proof -
  let ?n = "[(''anyOf'', JArr [JObj [(''type'', JStr ''string'')]]), (''enum'', JArr [JStr ''a''])]"
  have a: "get_prop ?n ''anyOf'' = JArr [JObj [(''type'', JStr ''string'')]]"
    by (simp add: get_prop_def)
  have r: "extractSchema ?n = Inr \<lparr>schema = [(''enum'', JUndefined), (''type'', JStr ''string''), (''title'', JUndefined),
                      (''description'', JUndefined), (''default'', JUndefined), (''choices'', JUndefined)],
            parentTitle = None, parentDescription = None, isNullable = False\<rparr>"
    by (simp add: eval_simps)
  show ?thesis using r enum_from_child_unchanged [OF a r] by blast
qed







text \<open>
  C8 (choices normalisation), as stated, fails. The claim: the choices are taken from the
  child if present, else from the union parent. The code merges with \<^verbatim>\<open>||\<close>, so a
  child whose \<^verbatim>\<open>choices\<close> is present but falsy gives way to the parent's: here the
  child has \<^verbatim>\<open>"choices": null\<close> and the result has the parent's list.
\<close>

theorem choices_from_child_counterexample:
  "has_key ''choices'' [(''type'', JStr ''string''), (''choices'', JNull)]
   \<and> extractSchema [(''anyOf'', JArr [JObj [(''type'', JStr ''string''), (''choices'', JNull)]]),
                    (''choices'', JArr [JObj [(''label'', JStr ''a''), (''value'', JStr ''b'')]])]
     = Inr \<lparr>schema = [(''choices'', JArr [JObj [(''label'', JStr ''a''), (''value'', JStr ''b'')]]),
                      (''type'', JStr ''string''), (''enum'', JUndefined), (''title'', JUndefined),
                      (''description'', JUndefined), (''default'', JUndefined)],
            parentTitle = None, parentDescription = None, isNullable = False\<rparr>
   \<and> get_prop [(''choices'', JArr [JObj [(''label'', JStr ''a''), (''value'', JStr ''b'')]]),
                      (''type'', JStr ''string''), (''enum'', JUndefined), (''title'', JUndefined),
                      (''description'', JUndefined), (''default'', JUndefined)] ''choices''
       = JArr [JObj [(''label'', JStr ''a''), (''value'', JStr ''b'')]]"
  by (simp add: eval_simps processChoice_def js_member_def)

text \<open>
  C8, amended. For a union resolution that selects a primitive, the choices are the
  child's if they are truthy, else the parent's if they are truthy, else
  \<^verbatim>\<open>undefined\<close>. The resolution succeeds exactly when these choices can be converted:
  a list with no \<^verbatim>\<open>null\<close> entry, or a mapping whose groups are arrays, with values
  that \<^verbatim>\<open>String\<close> accepts. When it succeeds, a list of choices comes out as the list of
  \<^verbatim>\<open>{label, value}\<close> pairs with both fields coerced to strings, in the same order, and a
  mapping of groups comes out as the mapping of the same group names to their values
  coerced to strings; absent choices stay \<^verbatim>\<open>undefined\<close>. The witness has the spec's
  example, \<^verbatim>\<open>[{"label": 1, "value": 2}]\<close> on the selected alternative, and a mapping
  of groups on the parent.
\<close>

theorem choices_normalized:
  assumes a: "get_prop n ''anyOf'' = JArr alts"
    and s: "selectSchema (nonNullSchemas alts) = JObj sel"
    and prim: "isSchema_primitive (JObj sel)"
    and src: "src = (if truthy (get_prop sel ''choices'') then get_prop sel ''choices''
                     else if truthy (get_prop n ''choices'') then get_prop n ''choices''
                     else JUndefined)"
  shows "((\<exists>r. extractSchema n = Inr r) = convertible_choices src)
       \<and> (\<forall>r. extractSchema n = Inr r \<longrightarrow>
             normalized_choices src (get_prop (schema r) ''choices''))"
proof -
  have t: "truthy src \<or> src = JUndefined" using src by auto
  note e = primitive_extract [OF a s prim, folded src]
  have "(\<exists>r. extractSchema n = Inr r) = (\<exists>pc. processChoices src = Inr pc)"
    unfolding e by (cases "processChoices src") (simp_all add: bind_err_def)
  then have 1: "(\<exists>r. extractSchema n = Inr r) = convertible_choices src"
    using processChoices_returns [OF t] by simp
  have 2: "normalized_choices src (get_prop (schema r) ''choices'')" if r: "extractSchema n = Inr r" for r
  proof -
    from r obtain pc where pc: "processChoices src = Inr pc"
      and g: "get_prop (schema r) ''choices'' = pc"
      unfolding e by (cases "processChoices src") (auto simp: bind_err_def get_prop_set_prop)
    from processChoices_normalized [OF t pc] show ?thesis by (simp add: g)
  qed
  from 1 2 show ?thesis by blast
qed

theorem choices_normalized_witness:
  "convertible_choices (JArr [JObj [(''label'', JNum 1), (''value'', JNum 2)]])
   \<and> extractSchema [(''anyOf'', JArr [JObj [(''type'', JStr ''string''),
          (''choices'', JArr [JObj [(''label'', JNum 1), (''value'', JNum 2)]])],
        JObj [(''type'', JStr ''null'')]])]
     = Inr \<lparr>schema = [(''type'', JStr ''string''),
               (''choices'', JArr [JObj [(''label'', JStr ''1''), (''value'', JStr ''2'')]]),
               (''enum'', JUndefined), (''title'', JUndefined), (''description'', JUndefined),
               (''default'', JUndefined)],
            parentTitle = None, parentDescription = None, isNullable = True\<rparr>
   \<and> normalized_choices (JArr [JObj [(''label'', JNum 1), (''value'', JNum 2)]])
        (JArr [JObj [(''label'', JStr ''1''), (''value'', JStr ''2'')]])
   \<and> convertible_choices (JObj [(''g'', JArr [JNum 10, JBool True]), (''h'', JArr [])])
   \<and> extractSchema [(''anyOf'', JArr [JObj [(''type'', JStr ''string''), (''choices'', JNull)]]),
          (''choices'', JObj [(''g'', JArr [JNum 10, JBool True]), (''h'', JArr [])])]
     = Inr \<lparr>schema = [(''choices'', JObj [(''g'', JArr [JStr ''10'', JStr ''true'']), (''h'', JArr [])]),
               (''type'', JStr ''string''), (''enum'', JUndefined), (''title'', JUndefined),
               (''description'', JUndefined), (''default'', JUndefined)],
            parentTitle = None, parentDescription = None, isNullable = False\<rparr>
   \<and> normalized_choices (JObj [(''g'', JArr [JNum 10, JBool True]), (''h'', JArr [])])
        (JObj [(''g'', JArr [JStr ''10'', JStr ''true'']), (''h'', JArr [])])"
proof -
  let ?sel = "[(''type'', JStr ''string''),
          (''choices'', JArr [JObj [(''label'', JNum 1), (''value'', JNum 2)]])]"
  let ?alts = "[JObj ?sel, JObj [(''type'', JStr ''null'')]]"
  let ?n = "[(''anyOf'', JArr ?alts)]"
  let ?r = "\<lparr>schema = [(''type'', JStr ''string''),
               (''choices'', JArr [JObj [(''label'', JStr ''1''), (''value'', JStr ''2'')]]),
               (''enum'', JUndefined), (''title'', JUndefined), (''description'', JUndefined),
               (''default'', JUndefined)],
            parentTitle = None, parentDescription = None, isNullable = True\<rparr>"
  let ?src = "JArr [JObj [(''label'', JNum 1), (''value'', JNum 2)]]"
  have a: "get_prop ?n ''anyOf'' = JArr ?alts"
    by (simp add: get_prop_def)
  have s: "selectSchema (nonNullSchemas ?alts) = JObj ?sel"
    by (simp add: eval_simps)
  have prim: "isSchema_primitive (JObj ?sel)"
    by (simp add: eval_simps)
  have src: "?src = (if truthy (get_prop ?sel ''choices'') then get_prop ?sel ''choices''
                     else if truthy (get_prop ?n ''choices'') then get_prop ?n ''choices''
                     else JUndefined)"
    by (simp add: get_prop_def)
  have r: "extractSchema ?n = Inr ?r"
    by (simp add: eval_simps processChoice_def js_member_def sample_strings)
  note A = choices_normalized [OF a s prim src]
  have cA: "convertible_choices ?src" using A r by blast
  have "normalized_choices ?src (get_prop (schema ?r) ''choices'')" using A r by blast
  then have nA: "normalized_choices ?src (JArr [JObj [(''label'', JStr ''1''), (''value'', JStr ''2'')]])"
    by (simp add: get_prop_def)
  let ?sel' = "[(''type'', JStr ''string''), (''choices'', JNull)]"
  let ?alts' = "[JObj ?sel']"
  let ?src' = "JObj [(''g'', JArr [JNum 10, JBool True]), (''h'', JArr [])]"
  let ?n' = "[(''anyOf'', JArr ?alts'), (''choices'', ?src')]"
  let ?r' = "\<lparr>schema = [(''choices'', JObj [(''g'', JArr [JStr ''10'', JStr ''true'']), (''h'', JArr [])]),
               (''type'', JStr ''string''), (''enum'', JUndefined), (''title'', JUndefined),
               (''description'', JUndefined), (''default'', JUndefined)],
            parentTitle = None, parentDescription = None, isNullable = False\<rparr>"
  have a': "get_prop ?n' ''anyOf'' = JArr ?alts'"
    by (simp add: get_prop_def)
  have s': "selectSchema (nonNullSchemas ?alts') = JObj ?sel'"
    by (simp add: eval_simps)
  have prim': "isSchema_primitive (JObj ?sel')"
    by (simp add: eval_simps)
  have src': "?src' = (if truthy (get_prop ?sel' ''choices'') then get_prop ?sel' ''choices''
                     else if truthy (get_prop ?n' ''choices'') then get_prop ?n' ''choices''
                     else JUndefined)"
    by (simp add: get_prop_def)
  have r': "extractSchema ?n' = Inr ?r'"
    by (simp add: eval_simps processGroup_def object_entries_def object_fromEntries_def
        sample_strings)
  note B = choices_normalized [OF a' s' prim' src']
  have cB: "convertible_choices ?src'" using B r' by blast
  have "normalized_choices ?src' (get_prop (schema ?r') ''choices'')" using B r' by blast
  then have nB: "normalized_choices ?src'
       (JObj [(''g'', JArr [JStr ''10'', JStr ''true'']), (''h'', JArr [])])"
    by (simp add: get_prop_def)
  from cA r nA cB r' nB show ?thesis by (intro conjI)
qed

text \<open>
  C9 (pass-through identity). A node without an \<^verbatim>\<open>anyOf\<close> field is returned as it is,
  with \<^verbatim>\<open>isNullable = false\<close>; so is \<^verbatim>\<open>{"type": "integer", "title": "Count"}\<close>.
\<close>

theorem passthrough_identity:
  assumes "\<not> has_key ''anyOf'' n"
  shows "extractSchema n =
     Inr \<lparr>schema = n, parentTitle = None, parentDescription = None, isNullable = False\<rparr>"
  using assms by (simp add: extractSchema_def isAnyOfSchema_def)

theorem passthrough_identity_witness:
  "\<not> has_key ''anyOf'' [(''type'', JStr ''integer''), (''title'', JStr ''Count'')]
   \<and> extractSchema [(''type'', JStr ''integer''), (''title'', JStr ''Count'')] =
     Inr \<lparr>schema = [(''type'', JStr ''integer''), (''title'', JStr ''Count'')],
          parentTitle = None, parentDescription = None, isNullable = False\<rparr>"
proof -
  have h: "\<not> has_key ''anyOf'' [(''type'', JStr ''integer''), (''title'', JStr ''Count'')]"
    by (simp add: has_key_def)
  show ?thesis using h passthrough_identity [OF h] by simp
qed

text \<open>
  C10 (the invalid-shape error is unreachable). \<^verbatim>\<open>extractSchema\<close> never fails with
  the invalid-shape error: a node without \<^verbatim>\<open>anyOf\<close> is returned with no validation of
  its shape, and in a union the selected representative always has a \<^verbatim>\<open>type\<close> field,
  since the alternatives without one are filtered out before the selection. Called on its
  own, \<^verbatim>\<open>combineSchemas\<close> does throw it (fact \<open>combineSchemas_can_throw\<close>).
\<close>

theorem invalid_shape_unreachable:
  "extractSchema n \<noteq> Inl InvalidSchemaShape
   \<and> (\<not> has_key ''anyOf'' n \<longrightarrow>
        extractSchema n =
          Inr \<lparr>schema = n, parentTitle = None, parentDescription = None, isNullable = False\<rparr>)
   \<and> (\<forall>alts. get_prop n ''anyOf'' = JArr alts \<and> nonNullSchemas alts \<noteq> [] \<longrightarrow>
        (\<exists>sel. selectSchema (nonNullSchemas alts) = JObj sel \<and> has_key ''type'' sel))"
proof (intro conjI allI impI)
  show "extractSchema n \<noteq> Inl InvalidSchemaShape"
  proof
    assume e: "extractSchema n = Inl InvalidSchemaShape"
    then have k: "has_key ''anyOf'' n"
      by (auto simp: extractSchema_def isAnyOfSchema_def split: if_splits)
    from e k have f: "extractFromAnyOf n = Inl InvalidSchemaShape"
      by (simp add: extractSchema_def isAnyOfSchema_def)
    then obtain alts where a: "get_prop n ''anyOf'' = JArr alts"
      by (cases "get_prop n ''anyOf''") (simp_all add: extractFromAnyOf_def)
    have ne: "nonNullSchemas alts \<noteq> []"
      using e extractSchema_union [OF a] by (auto split: if_splits)
    then obtain sel where s: "selectSchema (nonNullSchemas alts) = JObj sel" "has_key ''type'' sel"
      using selected_object by blast
    have t: "has_key ''type'' (set_prop ''enum'' (get_prop sel ''enum'') (spread [] sel))"
      using s(2) by (simp add: has_key_typed)
    have "combineSchemas (omit ''anyOf'' n) (set_prop ''enum'' (get_prop sel ''enum'') (spread [] sel))
            = Inl InvalidSchemaShape"
      using e ne s(1) extractSchema_union [OF a]
      by (auto simp: bind_err_def split: sum.splits)
    from combineSchemas_errors [OF t this] show False by simp
  qed
next
  assume "\<not> has_key ''anyOf'' n"
  then show "extractSchema n =
          Inr \<lparr>schema = n, parentTitle = None, parentDescription = None, isNullable = False\<rparr>"
    by (simp add: extractSchema_def isAnyOfSchema_def)
next
  fix alts
  assume "get_prop n ''anyOf'' = JArr alts \<and> nonNullSchemas alts \<noteq> []"
  then have "nonNullSchemas alts \<noteq> []" by simp
  from selected_object [OF this]
  show "\<exists>sel. selectSchema (nonNullSchemas alts) = JObj sel \<and> has_key ''type'' sel"
    by blast
qed

theorem invalid_shape_unreachable_witness:
  "\<not> has_key ''anyOf'' [(''title'', JStr ''Count'')]
   \<and> extractSchema [(''title'', JStr ''Count'')] =
       Inr \<lparr>schema = [(''title'', JStr ''Count'')], parentTitle = None, parentDescription = None,
            isNullable = False\<rparr>
   \<and> get_prop [(''anyOf'', JArr [JObj [(''type'', JStr ''compound'')], JObj [(''title'', JStr ''t'')]])]
        ''anyOf'' = JArr [JObj [(''type'', JStr ''compound'')], JObj [(''title'', JStr ''t'')]]
   \<and> nonNullSchemas [JObj [(''type'', JStr ''compound'')], JObj [(''title'', JStr ''t'')]] \<noteq> []
   \<and> (\<exists>sel. selectSchema (nonNullSchemas [JObj [(''type'', JStr ''compound'')],
                                             JObj [(''title'', JStr ''t'')]]) = JObj sel
         \<and> has_key ''type'' sel)
   \<and> extractSchema [(''anyOf'', JArr [JObj [(''type'', JStr ''compound'')], JObj [(''title'', JStr ''t'')]])]
       \<noteq> Inl InvalidSchemaShape"
proof -
  let ?p = "[(''title'', JStr ''Count'')]"
  let ?alts = "[JObj [(''type'', JStr ''compound'')], JObj [(''title'', JStr ''t'')]]"
  let ?u = "[(''anyOf'', JArr ?alts)]"
  have h: "\<not> has_key ''anyOf'' ?p" by (simp add: has_key_def)
  have a: "get_prop ?u ''anyOf'' = JArr ?alts" by (simp add: get_prop_def)
  have ne: "nonNullSchemas ?alts \<noteq> []" by (simp add: eval_simps)
  show ?thesis
    using h a ne invalid_shape_unreachable [of ?p] invalid_shape_unreachable [of ?u]
    by blast
qed

end
